theory Spec2Isabelle
  imports Complex_Main
begin

section \<open>Data model (internal/core/models.go)\<close>

text \<open>
  A Go string is modelled by the list of its runes (Unicode code points), which is what
  the string functions used below observe for well-formed UTF-8 text: equality,
  \<open>strings.Contains\<close>, \<open>strings.Fields\<close>, \<open>strings.ToLower\<close> and \<open>range\<close> over a string.
  Go's \<open>int\<close> is modelled by \<open>int\<close>; the quantities below are scores, counts and screen
  coordinates, and no statement of this theory depends on 64-bit wrap-around.
  A Go result pair \<open>(T, error)\<close> is a pair whose second component is an optional error
  message; a \<open>nil\<close> slice and an empty slice are both the empty list.
\<close>

type_synonym rune = nat
type_synonym gostring = "rune list"

abbreviation S :: "string \<Rightarrow> gostring" where
  "S s \<equiv> map of_char s"

record Window =
  ID :: int
  SnapshotID :: gostring
  AppName :: gostring
  AppPath :: gostring
  WindowTitle :: gostring
  X :: int
  Y :: int
  Width :: int
  Height :: int
  State :: gostring
  Workspace :: int
  ZIndex :: int
  LaunchArgs :: string

text \<open>
  The composite literal \<open>core.Window{AppName: a, WindowTitle: t, Width: w, Height: h}\<close>:
  every field that is not named has its zero value.
\<close>

definition mkWindow :: "gostring \<Rightarrow> gostring \<Rightarrow> int \<Rightarrow> int \<Rightarrow> Window" where
  "mkWindow app title w h =
     \<lparr>ID = 0, SnapshotID = [], AppName = app, AppPath = [], WindowTitle = title,
      X = 0, Y = 0, Width = w, Height = h, State = [], Workspace = 0, ZIndex = 0,
      LaunchArgs = []\<rparr>"

section \<open>Matching engine (internal/platform/matcher.go)\<close>

record WindowMatcher =
  ExactTitleScore :: int
  PartialTitleScore :: int
  SameAppScore :: int
  SameSizeScore :: int
  MinimumScore :: int

definition DefaultMatcher :: WindowMatcher where
  "DefaultMatcher =
     \<lparr>ExactTitleScore = 100, PartialTitleScore = 50, SameAppScore = 50,
      SameSizeScore = 10, MinimumScore = 60\<rparr>"

record MatchResult =
  Window :: Window
  Score :: int

subsection \<open>Library functions of Go used by the matcher\<close>

text \<open>
  \<open>unicode.IsSpace\<close>: the white space of Latin-1 and the code points with the Unicode
  property White_Space.
\<close>

definition isSpace :: "rune \<Rightarrow> bool" where
  "isSpace r =
     (r = 9 \<or> r = 10 \<or> r = 11 \<or> r = 12 \<or> r = 13 \<or> r = 32 \<or> r = 133 \<or> r = 160 \<or>
      r = 5760 \<or> (8192 \<le> r \<and> r \<le> 8202) \<or> r = 8232 \<or> r = 8233 \<or> r = 8239 \<or>
      r = 8287 \<or> r = 12288)"

text \<open>
  \<open>strings.Fields\<close> splits around runs of white space; \<open>cur\<close> is the field being read.
\<close>

fun fieldsFrom :: "gostring \<Rightarrow> gostring \<Rightarrow> gostring list" where
  "fieldsFrom cur [] = (if cur = [] then [] else [cur])"
| "fieldsFrom cur (r # rs) =
     (if isSpace r then (if cur = [] then fieldsFrom [] rs else cur # fieldsFrom [] rs)
      else fieldsFrom (cur @ [r]) rs)"

definition Fields :: "gostring \<Rightarrow> gostring list" where
  "Fields s = fieldsFrom [] s"

text \<open>
  \<open>strings.ToLower\<close> maps \<open>unicode.ToLower\<close> over the runes. The Unicode case tables are
  not part of the repository: \<open>unicode.ToLower\<close> is the parameter \<open>lw\<close> of every function
  that lowers a string, and every statement below holds for each \<open>lw\<close>.
  \<open>asciiToLower\<close> is its restriction to ASCII, used to evaluate examples.
\<close>

definition ToLower :: "(rune \<Rightarrow> rune) \<Rightarrow> gostring \<Rightarrow> gostring" where
  "ToLower lw s = map lw s"

definition asciiToLower :: "rune \<Rightarrow> rune" where
  "asciiToLower r = (if 65 \<le> r \<and> r \<le> 90 then r + 32 else r)"

fun HasPrefix :: "gostring \<Rightarrow> gostring \<Rightarrow> bool" where
  "HasPrefix s [] = True"
| "HasPrefix [] (p # ps) = False"
| "HasPrefix (x # xs) (p # ps) = (x = p \<and> HasPrefix xs ps)"

text \<open>\<open>strings.Contains s substr\<close>: \<open>substr\<close> occurs in \<open>s\<close> at some position.\<close>

fun Contains :: "gostring \<Rightarrow> gostring \<Rightarrow> bool" where
  "Contains [] substr = (substr = [])"
| "Contains (x # xs) substr = (HasPrefix (x # xs) substr \<or> Contains xs substr)"

text \<open>
  Integer division of Go truncates towards zero and panics on a zero divisor; the panic
  is a value of the model.
\<close>

datatype panic = IntegerDivideByZero

definition go_div :: "int \<Rightarrow> int \<Rightarrow> panic + int" where
  "go_div a b =
     (if b = 0 then Inl IntegerDivideByZero
      else Inr (sgn a * sgn b * (\<bar>a\<bar> div \<bar>b\<bar>)))"

text \<open>
  \<open>float64\<close> values are modelled by exact rationals together with the special values that
  a division by zero produces. For the operands that occur here (differences of screen
  coordinates, counts of distinct runes) the comparisons with \<open>0.1\<close> and \<open>0.7\<close> have the
  same outcome in exact arithmetic as in IEEE double precision below \<open>2^52\<close>. The product
  of the fuzzy rule is taken exactly, where the code rounds it in double precision: with
  \<open>PartialTitleScore = 75\<close> and similarity 11/15 the code gives 54 and the exact product
  55. No statement below depends on the value of the fuzzy rule, nor on widths, heights
  or scores large enough to wrap in 64 bits.
\<close>

datatype float64 = NaN | PosInf | NegInf | Finite rat

definition float_div :: "rat \<Rightarrow> rat \<Rightarrow> float64" where
  "float_div x y =
     (if y = 0 then (if x = 0 then NaN else if 0 < x then PosInf else NegInf)
      else Finite (x / y))"

fun float_le :: "float64 \<Rightarrow> rat \<Rightarrow> bool" where
  "float_le NaN t = False"
| "float_le PosInf t = False"
| "float_le NegInf t = True"
| "float_le (Finite q) t = (q \<le> t)"

text \<open>The conversion \<open>int(f)\<close> of a finite \<open>float64\<close> drops the fraction.\<close>

definition float_to_int :: "rat \<Rightarrow> int" where
  "float_to_int q = (if 0 \<le> q then \<lfloor>q\<rfloor> else \<lceil>q\<rceil>)"

subsection \<open>Scoring\<close>

text \<open>
  \<open>stringSimilarity\<close>: Jaccard similarity of the sets of runes. The two Go maps are
  the duplicate-free lists of runes; the result lies between 0 and 1.
\<close>

definition stringSimilarity :: "gostring \<Rightarrow> gostring \<Rightarrow> rat" where
  "stringSimilarity s1 s2 =
     (if s1 = s2 then 1
      else
        let set1 = remdups s1;
            set2 = remdups s2;
            intersection = int (length (filter (\<lambda>c. c \<in> set set2) set1));
            union = int (length set1) + int (length set2) - intersection
        in if union = 0 then 0 else of_int intersection / of_int union)"

text \<open>
  \<open>countCommonTokens\<close>: the tokens of the second list whose lower-case form is a
  lower-case token of the first list.
\<close>

definition countCommonTokens :: "(rune \<Rightarrow> rune) \<Rightarrow> gostring list \<Rightarrow> gostring list \<Rightarrow> int" where
  "countCommonTokens lw tokens1 tokens2 =
     (let set = set (map (ToLower lw) tokens1)
      in int (length (filter (\<lambda>t. ToLower lw t \<in> set) tokens2)))"

text \<open>The token rule of \<open>scoreTitleMatch\<close> (its last three statements).\<close>

definition tokenScore :: "(rune \<Rightarrow> rune) \<Rightarrow> WindowMatcher \<Rightarrow> gostring \<Rightarrow> gostring \<Rightarrow> panic + int" where
  "tokenScore lw m target candidate =
     (let targetTokens = Fields target;
          candidateTokens = Fields candidate;
          commonTokens = countCommonTokens lw targetTokens candidateTokens
      in if 0 < commonTokens
         then go_div (commonTokens * PartialTitleScore m) (int (length targetTokens))
         else Inr 0)"

definition scoreTitleMatch :: "(rune \<Rightarrow> rune) \<Rightarrow> WindowMatcher \<Rightarrow> gostring \<Rightarrow> gostring \<Rightarrow> panic + int" where
  "scoreTitleMatch lw m target candidate =
     (if target = candidate then Inr (ExactTitleScore m)
      else
        let targetLower = ToLower lw target;
            candidateLower = ToLower lw candidate
        in if targetLower = candidateLower then Inr (ExactTitleScore m)
           else if Contains candidateLower targetLower then Inr (PartialTitleScore m)
           else if Contains targetLower candidateLower then Inr (PartialTitleScore m)
           else
             let similarity = stringSimilarity targetLower candidateLower
             in if 7 / 10 < similarity
                then Inr (float_to_int (of_int (PartialTitleScore m) * similarity))
                else tokenScore lw m target candidate)"

definition isSimilarSize :: "Window \<Rightarrow> Window \<Rightarrow> bool" where
  "isSimilarSize w1 w2 =
     (let tolerance = 1 / 10;
          widthDiff = float_div \<bar>of_int (Width w1 - Width w2)\<bar> (of_int (Width w1));
          heightDiff = float_div \<bar>of_int (Height w1 - Height w2)\<bar> (of_int (Height w1))
      in float_le widthDiff tolerance \<and> float_le heightDiff tolerance)"

definition calculateScore :: "(rune \<Rightarrow> rune) \<Rightarrow> WindowMatcher \<Rightarrow> Window \<Rightarrow> Window \<Rightarrow> panic + int" where
  "calculateScore lw m target candidate =
     (case scoreTitleMatch lw m (WindowTitle target) (WindowTitle candidate) of
        Inl p \<Rightarrow> Inl p
      | Inr titleScore \<Rightarrow>
          Inr (titleScore
               + (if AppName target = AppName candidate then SameAppScore m else 0)
               + (if isSimilarSize target candidate then SameSizeScore m else 0)))"

subsection \<open>Best match and greedy assignment\<close>

text \<open>
  The loop of \<open>FindBestMatch\<close>; \<open>bestMatch\<close> is the pointer of the source, \<open>None\<close> for
  \<open>nil\<close>.
\<close>

fun FindBestMatch_loop ::
  "(rune \<Rightarrow> rune) \<Rightarrow> WindowMatcher \<Rightarrow> Window \<Rightarrow> MatchResult option \<Rightarrow> Window list
   \<Rightarrow> panic + MatchResult option" where
  "FindBestMatch_loop lw m target bestMatch [] = Inr bestMatch"
| "FindBestMatch_loop lw m target bestMatch (candidate # candidates) =
     (case calculateScore lw m target candidate of
        Inl p \<Rightarrow> Inl p
      | Inr score \<Rightarrow>
          FindBestMatch_loop lw m target
            (if MinimumScore m \<le> score
             then (case bestMatch of
                     None \<Rightarrow> Some \<lparr>Window = candidate, Score = score\<rparr>
                   | Some b \<Rightarrow>
                       if Score b < score then Some \<lparr>Window = candidate, Score = score\<rparr>
                       else bestMatch)
             else bestMatch)
            candidates)"

definition FindBestMatch ::
  "(rune \<Rightarrow> rune) \<Rightarrow> WindowMatcher \<Rightarrow> Window \<Rightarrow> Window list \<Rightarrow> panic + MatchResult option" where
  "FindBestMatch lw m target candidates = FindBestMatch_loop lw m target None candidates"

definition removeWindow :: "Window list \<Rightarrow> Window \<Rightarrow> Window list" where
  "removeWindow windows toRemove =
     filter (\<lambda>w. WindowTitle w \<noteq> WindowTitle toRemove \<or> AppName w \<noteq> AppName toRemove)
       windows"

text \<open>
  The loop of \<open>MatchWindows\<close> over the targets, with the result map and the candidates
  that are still available.
\<close>

fun MatchWindows_loop ::
  "(rune \<Rightarrow> rune) \<Rightarrow> WindowMatcher \<Rightarrow> (gostring \<rightharpoonup> MatchResult) \<Rightarrow> Window list \<Rightarrow> Window list
   \<Rightarrow> panic + (gostring \<rightharpoonup> MatchResult)" where
  "MatchWindows_loop lw m results availableCandidates [] = Inr results"
| "MatchWindows_loop lw m results availableCandidates (target # targets) =
     (case FindBestMatch lw m target availableCandidates of
        Inl p \<Rightarrow> Inl p
      | Inr None \<Rightarrow> MatchWindows_loop lw m results availableCandidates targets
      | Inr (Some match) \<Rightarrow>
          MatchWindows_loop lw m (results(WindowTitle target \<mapsto> match))
            (removeWindow availableCandidates (Window match)) targets)"

definition MatchWindows ::
  "(rune \<Rightarrow> rune) \<Rightarrow> WindowMatcher \<Rightarrow> Window list \<Rightarrow> Window list
   \<Rightarrow> panic + (gostring \<rightharpoonup> MatchResult)" where
  "MatchWindows lw m targets candidates = MatchWindows_loop lw m Map.empty candidates targets"

subsection \<open>Notions used to state the properties of the matcher\<close>

text \<open>
  \<open>calculateScore\<close> never panics (lemma \<open>calculateScore_scoreValue\<close> below), so the
  score of a candidate is the integer it returns.
\<close>

definition scoreValue :: "(rune \<Rightarrow> rune) \<Rightarrow> WindowMatcher \<Rightarrow> Window \<Rightarrow> Window \<Rightarrow> int" where
  "scoreValue lw m target candidate =
     (case calculateScore lw m target candidate of Inr n \<Rightarrow> n | Inl p \<Rightarrow> 0)"

text \<open>
  \<open>firstMaximum m sc seen best\<close>: \<open>best\<close> is what the scan must hold after the
  candidates \<open>seen\<close>: nothing when no score reaches the threshold, otherwise the first
  candidate whose score is maximal.
\<close>

definition firstMaximum ::
  "WindowMatcher \<Rightarrow> (Window \<Rightarrow> int) \<Rightarrow> Window list \<Rightarrow> MatchResult option \<Rightarrow> bool" where
  "firstMaximum m sc seen best =
     (case best of
        None \<Rightarrow> list_all (\<lambda>c. sc c < MinimumScore m) seen
      | Some b \<Rightarrow>
          Score b = sc (Window b) \<and> MinimumScore m \<le> Score b \<and>
          (\<exists>before after. seen = before @ Window b # after \<and>
             list_all (\<lambda>c. sc c < Score b) before \<and>
             list_all (\<lambda>c. sc c \<le> Score b) after))"

definition sameTitleApp :: "Window \<Rightarrow> Window \<Rightarrow> bool" where
  "sameTitleApp w v = (WindowTitle w = WindowTitle v \<and> AppName w = AppName v)"

text \<open>
  The invariant of the loop of \<open>MatchWindows\<close>: every recorded match is one of the
  candidates, nothing left in the pool has the title and application of a recorded
  match, and two entries of the result never hold candidates with the same title and
  application.
\<close>

definition noReuse ::
  "(gostring \<rightharpoonup> MatchResult) \<Rightarrow> Window list \<Rightarrow> Window list \<Rightarrow> bool" where
  "noReuse results pool candidates =
     ((\<forall>k r. results k = Some r \<longrightarrow>
          Window r \<in> set candidates \<and> (\<forall>w \<in> set pool. \<not> sameTitleApp w (Window r))) \<and>
      (\<forall>k k' r r'. results k = Some r \<and> results k' = Some r' \<and> k \<noteq> k' \<longrightarrow>
          \<not> sameTitleApp (Window r) (Window r')) \<and>
      set pool \<subseteq> set candidates)"

subsection \<open>Example windows\<close>

definition editorA :: Window where
  "editorA = mkWindow (S ''Ed'') (S ''a.go'') 800 600"

definition editorUpperA :: Window where
  "editorUpperA = mkWindow (S ''Ed'') (S ''A.GO'') 800 600"

definition editorB :: Window where
  "editorB = mkWindow (S ''Ed'') (S ''b.go'') 800 600"

definition terminalZ :: Window where
  "terminalZ = mkWindow (S ''Term'') (S ''zz'') 800 600"

text \<open>Two windows of one application with one title and different widths.\<close>

definition narrowT :: Window where
  "narrowT = mkWindow (S ''Ed'') (S ''T'') 100 100"

definition wideT :: Window where
  "wideT = mkWindow (S ''Ed'') (S ''T'') 200 100"

definition wideLowerT :: Window where
  "wideLowerT = mkWindow (S ''Ed'') (S ''t'') 200 100"

text \<open>A window whose rectangle is empty.\<close>

definition zeroSizeWindow :: Window where
  "zeroSizeWindow = mkWindow (S ''Code'') (S ''project - VS Code'') 0 0"

section \<open>Restore and diff (ManagerV2 of package snapshot; Manager.Diff is the same code)\<close>

text \<open>
  Of a snapshot the orchestrator reads the source-control context and the windows. The
  time stamps and the lists of terminals, browser tabs, processes and editor files are
  payload that \<open>Restore\<close> and \<open>Diff\<close> never touch; they are left out.
\<close>

record Snapshot =
  snapshot_ID :: gostring
  Name :: gostring
  Description :: gostring
  GitBranch :: gostring
  GitRepo :: gostring
  GitDirty :: bool
  GitHeadHash :: gostring
  Tags :: "gostring list"
  Windows :: "Window list"

text \<open>
  The two collaborators. The repository is only read here, so its methods are functions
  of their arguments. The platform adapter acts on the desktop: its methods take the
  state \<open>'p\<close> of the platform and return the next one.
\<close>

record Repository =
  GetSnapshotByID :: "gostring \<Rightarrow> Snapshot option \<times> gostring option"
  repo_GetWindows :: "gostring \<Rightarrow> Window list \<times> gostring option"

record 'p PlatformAdapter =
  GetWindows :: "'p \<Rightarrow> (Window list \<times> gostring option) \<times> 'p"
  RestoreWindow :: "Window \<Rightarrow> 'p \<Rightarrow> gostring option \<times> 'p"

text \<open>
  To state which platform calls an operation issues, the state that is threaded through
  the orchestrator also holds the trace of the calls made so far.
\<close>

datatype platform_call = CallGetWindows | CallRestoreWindow Window

record 'p world =
  platformState :: 'p
  calls :: "platform_call list"

definition platform_GetWindows ::
  "'p PlatformAdapter \<Rightarrow> 'p world \<Rightarrow> (Window list \<times> gostring option) \<times> 'p world" where
  "platform_GetWindows platform world =
     (case GetWindows platform (platformState world) of
        (result, p') \<Rightarrow>
          (result, \<lparr>platformState = p', calls = calls world @ [CallGetWindows]\<rparr>))"

definition platform_RestoreWindow ::
  "'p PlatformAdapter \<Rightarrow> Window \<Rightarrow> 'p world \<Rightarrow> gostring option \<times> 'p world" where
  "platform_RestoreWindow platform window world =
     (case RestoreWindow platform window (platformState world) of
        (err, p') \<Rightarrow>
          (err, \<lparr>platformState = p', calls = calls world @ [CallRestoreWindow window]\<rparr>))"

record RestoreOptionsV2 =
  ValidateBeforeRestore :: bool
  SkipMissingApps :: bool
  DryRun :: bool

text \<open>
  The report. Its fields \<open>SnapshotID\<close> and \<open>DryRun\<close> are \<open>report_SnapshotID\<close> and
  \<open>report_DryRun\<close> here, apart from the fields of the same names of a window and of the
  options. \<open>StartTime\<close>, \<open>EndTime\<close> and \<open>Duration\<close> are readings of the wall clock and are
  left out.
\<close>

record RestoreReport =
  report_SnapshotID :: gostring
  TotalWindows :: int
  RestoredWindows :: int
  FailedWindows :: "gostring list"
  MissingApps :: "gostring list"
  Errors :: "gostring list"
  Success :: bool
  report_DryRun :: bool
  Error :: gostring
  Message :: gostring

subsection \<open>Formatting (package fmt)\<close>

text \<open>The verb \<open>%d\<close>: the decimal digits of an integer.\<close>

function digits :: "nat \<Rightarrow> gostring" where
  "digits n = (if n < 10 then [48 + n] else digits (n div 10) @ [48 + n mod 10])"
  by pat_completeness auto
termination
  by (relation "measure id") auto

definition format_int :: "int \<Rightarrow> gostring" where
  "format_int i = (if i < 0 then 45 # digits (nat (- i)) else digits (nat i))"

text \<open>The verb \<open>%v\<close> of a slice of strings: the elements between brackets, with spaces.\<close>

fun join_spaces :: "gostring list \<Rightarrow> gostring" where
  "join_spaces [] = []"
| "join_spaces [x] = x"
| "join_spaces (x # y # ys) = x @ 32 # join_spaces (y # ys)"

definition format_strings :: "gostring list \<Rightarrow> gostring" where
  "format_strings xs = 91 # join_spaces xs @ [93]"

subsection \<open>Restore\<close>

text \<open>
  The loop of \<open>validateApps\<close> over the stored windows. The two Go maps hold only the
  value \<open>true\<close> and are the sets of their keys.
\<close>

fun validateApps_loop ::
  "gostring set \<Rightarrow> gostring set \<Rightarrow> gostring list \<Rightarrow> Window list \<Rightarrow> gostring list" where
  "validateApps_loop availableApps checked missing [] = missing"
| "validateApps_loop availableApps checked missing (w # ws) =
     (if AppName w \<in> checked then validateApps_loop availableApps checked missing ws
      else validateApps_loop availableApps (insert (AppName w) checked)
             (if AppName w \<in> availableApps then missing else missing @ [AppName w]) ws)"

definition validateApps ::
  "'p PlatformAdapter \<Rightarrow> Window list \<Rightarrow> 'p world \<Rightarrow> gostring list \<times> 'p world" where
  "validateApps platform windows world =
     (case platform_GetWindows platform world of
        ((currentWindows, Some err), world') \<Rightarrow> ([], world')
      | ((currentWindows, None), world') \<Rightarrow>
          (validateApps_loop (set (map AppName currentWindows)) {} [] windows, world'))"

text \<open>The loop of \<open>Restore\<close> over the stored windows.\<close>

fun restoreWindows ::
  "'p PlatformAdapter \<Rightarrow> RestoreReport \<Rightarrow> Window list \<Rightarrow> 'p world
   \<Rightarrow> RestoreReport \<times> 'p world" where
  "restoreWindows platform report [] world = (report, world)"
| "restoreWindows platform report (w # ws) world =
     (case platform_RestoreWindow platform w world of
        (Some err, world') \<Rightarrow>
          restoreWindows platform
            (report\<lparr>FailedWindows := FailedWindows report @ [WindowTitle w],
                    Errors := Errors report @ [WindowTitle w @ S '': '' @ err]\<rparr>)
            ws world'
      | (None, world') \<Rightarrow>
          restoreWindows platform (report\<lparr>RestoredWindows := RestoredWindows report + 1\<rparr>)
            ws world')"

text \<open>\<open>Restore\<close> from the comment \<open>Dry run mode\<close> to its end.\<close>

definition Restore_after_validation ::
  "'p PlatformAdapter \<Rightarrow> RestoreOptionsV2 \<Rightarrow> Snapshot \<Rightarrow> RestoreReport \<Rightarrow> 'p world
   \<Rightarrow> (RestoreReport option \<times> gostring option) \<times> 'p world" where
  "Restore_after_validation platform opts s report world =
     (if DryRun opts
      then ((Some (report\<lparr>Success := True, report_DryRun := True,
                     Message := S ''Dry run completed - no changes made''\<rparr>), None), world)
      else
        (case restoreWindows platform report (Windows s) world of
           (report, world') \<Rightarrow>
             let report = report\<lparr>Success := 0 < RestoredWindows report\<rparr>;
                 report =
                   (if RestoredWindows report = TotalWindows report
                    then report\<lparr>Message := S ''All windows restored successfully''\<rparr>
                    else report\<lparr>Message :=
                           S ''Restored '' @ format_int (RestoredWindows report) @ S ''/''
                           @ format_int (TotalWindows report) @ S '' windows''\<rparr>)
             in ((Some report, None), world')))"

definition Restore ::
  "Repository \<Rightarrow> 'p PlatformAdapter \<Rightarrow> gostring \<Rightarrow> RestoreOptionsV2 \<Rightarrow> 'p world
   \<Rightarrow> (RestoreReport option \<times> gostring option) \<times> 'p world" where
  "Restore repo platform snapshotID opts world =
     (case GetSnapshotByID repo snapshotID of
        (s, Some err) \<Rightarrow> ((None, Some (S ''failed to get snapshot: '' @ err)), world)
      | (None, None) \<Rightarrow> ((None, Some (S ''snapshot not found'')), world)
      | (Some s, None) \<Rightarrow>
          (case repo_GetWindows repo snapshotID of
             (windows, Some err) \<Rightarrow>
               ((None, Some (S ''failed to get windows: '' @ err)), world)
           | (windows, None) \<Rightarrow>
               let s = s\<lparr>Windows := windows\<rparr>;
                   report =
                     \<lparr>report_SnapshotID = snapshotID,
                      TotalWindows = int (length (Windows s)), RestoredWindows = 0,
                      FailedWindows = [], MissingApps = [], Errors = [], Success = False,
                      report_DryRun = False, Error = [], Message = []\<rparr>
               in if ValidateBeforeRestore opts
                  then
                    (case validateApps platform (Windows s) world of
                       (missing, world') \<Rightarrow>
                         let report = report\<lparr>MissingApps := missing\<rparr>
                         in if 0 < length missing \<and> \<not> SkipMissingApps opts
                            then
                              ((Some (report\<lparr>Success := False,
                                        Error := S ''missing applications: ''
                                                 @ format_strings missing\<rparr>),
                                Some (S ''cannot restore: missing applications'')), world')
                            else Restore_after_validation platform opts s report world')
                  else Restore_after_validation platform opts s report world))"

subsection \<open>Diff\<close>

record DiffResult =
  SourceID :: gostring
  TargetID :: gostring
  GitChanged :: bool
  AddedWindows :: "gostring list"
  RemovedWindows :: "gostring list"
  CommonWindows :: int

text \<open>
  The maps \<open>titles1\<close> and \<open>titles2\<close> hold only the value \<open>true\<close>: each is the list of its
  keys, without duplicates. Go does not fix the order in which \<open>range\<close> visits the keys of
  a map: \<open>rangeOrder\<close>, a parameter of \<open>Diff\<close>, takes the keys of a map to the sequence in
  which the loop visits them.
\<close>

definition titleKeys :: "Window list \<Rightarrow> gostring list" where
  "titleKeys ws = remdups (map WindowTitle ws)"

fun diffAdded :: "gostring list \<Rightarrow> DiffResult \<Rightarrow> gostring list \<Rightarrow> DiffResult" where
  "diffAdded titles1 diff [] = diff"
| "diffAdded titles1 diff (t # ts) =
     (if t \<in> set titles1
      then diffAdded titles1 (diff\<lparr>CommonWindows := CommonWindows diff + 1\<rparr>) ts
      else diffAdded titles1 (diff\<lparr>AddedWindows := AddedWindows diff @ [t]\<rparr>) ts)"

fun diffRemoved :: "gostring list \<Rightarrow> DiffResult \<Rightarrow> gostring list \<Rightarrow> DiffResult" where
  "diffRemoved titles2 diff [] = diff"
| "diffRemoved titles2 diff (t # ts) =
     (if t \<in> set titles2 then diffRemoved titles2 diff ts
      else diffRemoved titles2 (diff\<lparr>RemovedWindows := RemovedWindows diff @ [t]\<rparr>) ts)"

definition Diff ::
  "Repository \<Rightarrow> (gostring list \<Rightarrow> gostring list) \<Rightarrow> gostring \<Rightarrow> gostring
   \<Rightarrow> DiffResult option \<times> gostring option" where
  "Diff repo rangeOrder id1 id2 =
     (case GetSnapshotByID repo id1 of
        (s1, Some err) \<Rightarrow> (None, Some err)
      | (s1, None) \<Rightarrow>
          (case GetSnapshotByID repo id2 of
             (s2, Some err) \<Rightarrow> (None, Some err)
           | (s2, None) \<Rightarrow>
               (case (s1, s2) of
                  (Some s1, Some s2) \<Rightarrow>
                    let w1 = fst (repo_GetWindows repo id1);
                        w2 = fst (repo_GetWindows repo id2);
                        diff =
                          \<lparr>SourceID = id1, TargetID = id2,
                           GitChanged = (GitBranch s1 \<noteq> GitBranch s2 \<or> GitRepo s1 \<noteq> GitRepo s2),
                           AddedWindows = [], RemovedWindows = [], CommonWindows = 0\<rparr>;
                        titles1 = titleKeys w1;
                        titles2 = titleKeys w2;
                        diff = diffAdded titles1 diff (rangeOrder titles2);
                        diff = diffRemoved titles2 diff (rangeOrder titles1)
                    in (Some diff, None)
                | _ \<Rightarrow> (None, Some (S ''one or both snapshots not found'')))))"

subsection \<open>Notions used to state the properties of the orchestrator\<close>

text \<open>
  The answers that the platform gives to the calls of \<open>RestoreWindow\<close> for the windows of
  a list, one after the other, from the state \<open>p\<close>; and the title and the error message of
  every call that failed.
\<close>

fun restoreOutcomes :: "'p PlatformAdapter \<Rightarrow> Window list \<Rightarrow> 'p \<Rightarrow> gostring option list" where
  "restoreOutcomes platform [] p = []"
| "restoreOutcomes platform (w # ws) p =
     (case RestoreWindow platform w p of
        (err, p') \<Rightarrow> err # restoreOutcomes platform ws p')"

fun failureEntries :: "Window list \<Rightarrow> gostring option list \<Rightarrow> (gostring \<times> gostring) list" where
  "failureEntries (w # ws) (Some err # outcomes) =
     (WindowTitle w, err) # failureEntries ws outcomes"
| "failureEntries (w # ws) (None # outcomes) = failureEntries ws outcomes"
| "failureEntries ws outcomes = []"

definition successes :: "gostring option list \<Rightarrow> int" where
  "successes outcomes = int (length (filter (\<lambda>r. r = None) outcomes))"

text \<open>The calls of \<open>RestoreWindow\<close> in a trace.\<close>

fun isRestoreCall :: "platform_call \<Rightarrow> bool" where
  "isRestoreCall (CallRestoreWindow w) = True"
| "isRestoreCall CallGetWindows = False"

definition restoreCalls :: "platform_call list \<Rightarrow> platform_call list" where
  "restoreCalls trace = filter isRestoreCall trace"

subsection \<open>Example collaborators\<close>

definition exampleSnapshot :: Snapshot where
  "exampleSnapshot =
     \<lparr>snapshot_ID = S ''s1'', Name = S ''work'', Description = [], GitBranch = S ''main'',
      GitRepo = S ''/repo'', GitDirty = False, GitHeadHash = [], Tags = [], Windows = []\<rparr>"

text \<open>A repository with the snapshot \<open>s1\<close> of three windows and \<open>s2\<close> of two.\<close>

definition exampleRepo :: Repository where
  "exampleRepo =
     \<lparr>GetSnapshotByID =
        (\<lambda>id. if id = S ''s1'' then (Some exampleSnapshot, None)
              else if id = S ''s2'' then (Some (exampleSnapshot\<lparr>snapshot_ID := S ''s2''\<rparr>), None)
              else (None, None)),
      repo_GetWindows =
        (\<lambda>id. if id = S ''s1'' then ([editorA, terminalZ, editorB], None)
              else if id = S ''s2'' then ([editorB, wideT], None)
              else ([], None))\<rparr>"

text \<open>
  A platform that shows one window of the application \<open>Ed\<close> and whose second call of
  \<open>RestoreWindow\<close> fails; its state counts the calls of \<open>RestoreWindow\<close>.
\<close>

definition flakyPlatform :: "nat PlatformAdapter" where
  "flakyPlatform =
     \<lparr>GetWindows = (\<lambda>p. (([editorA], None), p)),
      RestoreWindow =
        (\<lambda>w p. (if p = 1 then Some (S ''SetWindowPos failed'') else None, Suc p))\<rparr>"

text \<open>A platform that cannot enumerate its windows.\<close>

definition blindPlatform :: "nat PlatformAdapter" where
  "blindPlatform =
     \<lparr>GetWindows = (\<lambda>p. (([], Some (S ''EnumWindows failed'')), p)),
      RestoreWindow = (\<lambda>w p. (None, Suc p))\<rparr>"

definition startWorld :: "nat world" where
  "startWorld = \<lparr>platformState = 0, calls = []\<rparr>"

section \<open>Properties of the matching engine\<close>

subsection \<open>Scores are always returned\<close>

lemma go_div_zero: "go_div a 0 = Inl IntegerDivideByZero"
  by (simp add: go_div_def)

lemma Contains_empty: "Contains s [] = True"
  by (cases s) auto

lemma countCommonTokens_Nil: "countCommonTokens lw [] ts = 0"
  by (simp add: countCommonTokens_def)

lemma tokenScore_returns: "\<exists>n. tokenScore lw m t c = Inr n"
  by (auto simp: tokenScore_def Let_def go_div_def countCommonTokens_Nil)

lemma tokenScore_no_tokens: "Fields t = [] \<Longrightarrow> tokenScore lw m t c = Inr 0"
  by (simp add: tokenScore_def countCommonTokens_Nil)

lemma scoreTitleMatch_returns: "\<exists>n. scoreTitleMatch lw m t c = Inr n"
  using tokenScore_returns [of lw m t c] by (auto simp: scoreTitleMatch_def Let_def)

lemma calculateScore_scoreValue:
  "calculateScore lw m t c = Inr (scoreValue lw m t c)"
  using scoreTitleMatch_returns [of lw m "WindowTitle t" "WindowTitle c"]
  by (auto simp: calculateScore_def scoreValue_def)

text \<open>
  C8. The division of the token rule is never reached with an empty list of target
  tokens: the token rule, the title score and the score of a pair of windows always
  return an integer and never panic, and a target title without tokens (empty, or white
  space only) gets 0 from the token rule.
\<close>

theorem token_rule_never_divides_by_zero:
  "(\<exists>n. tokenScore lw m target candidate = Inr n) \<and>
   (\<exists>n. scoreTitleMatch lw m target candidate = Inr n) \<and>
   (\<exists>n. calculateScore lw m targetWindow candidateWindow = Inr n) \<and>
   (Fields target = [] \<longrightarrow> tokenScore lw m target candidate = Inr 0)"
  using tokenScore_returns [of lw m target candidate]
    scoreTitleMatch_returns [of lw m target candidate]
    calculateScore_scoreValue [of lw m targetWindow candidateWindow]
    tokenScore_no_tokens [of target lw m candidate]
  by blast

lemma Fields_blank: "Fields (S '' '') = []"
  by (simp add: Fields_def isSpace_def)

theorem token_rule_never_divides_by_zero_witness:
  "Fields (S '' '') = [] \<and>
   tokenScore asciiToLower DefaultMatcher (S '' '') (S ''a'') = Inr 0 \<and>
   scoreTitleMatch asciiToLower DefaultMatcher (S '' '') (S ''a'') = Inr 0"
proof -
  have "tokenScore asciiToLower DefaultMatcher (S '' '') (S ''a'') = Inr 0"
    using token_rule_never_divides_by_zero [of asciiToLower DefaultMatcher "S '' ''" "S ''a''"]
      Fields_blank
    by blast
  moreover have "scoreTitleMatch asciiToLower DefaultMatcher (S '' '') (S ''a'') =
      tokenScore asciiToLower DefaultMatcher (S '' '') (S ''a'')"
    by (simp add: scoreTitleMatch_def ToLower_def asciiToLower_def stringSimilarity_def)
  ultimately show ?thesis
    using Fields_blank by simp
qed

subsection \<open>The title score of an empty target title\<close>

text \<open>
  C7, as the claim states it, fails: against a candidate titled \<open>abc\<close> a target with the
  empty title gets 50 from the substring rule while the token rule alone gives 0, and
  against a candidate with the empty title it gets 100 from the exact rule.
\<close>

theorem empty_title_scores_counterexample:
  "scoreTitleMatch asciiToLower DefaultMatcher [] (S ''abc'') = Inr 50 \<and>
   tokenScore asciiToLower DefaultMatcher [] (S ''abc'') = Inr 0 \<and>
   scoreTitleMatch asciiToLower DefaultMatcher [] [] = Inr 100"
  by (simp add: scoreTitleMatch_def tokenScore_def countCommonTokens_def Fields_def
      ToLower_def DefaultMatcher_def)

text \<open>
  C7, amended. For a target whose title is empty the title score is decided by the exact
  rule and the substring rule: it is \<open>ExactTitleScore\<close> when the candidate's title is empty
  too, and \<open>PartialTitleScore\<close> for every other candidate, because the empty string is
  contained in every title. The fuzzy rule and the token rule are never reached.
\<close>

theorem empty_title_scores:
  "scoreTitleMatch lw m [] candidate =
     Inr (if candidate = [] then ExactTitleScore m else PartialTitleScore m)"
  by (simp add: scoreTitleMatch_def ToLower_def Contains_empty)

theorem empty_title_scores_witness:
  "scoreTitleMatch asciiToLower DefaultMatcher [] (S ''t'') = Inr 50"
  using empty_title_scores [of asciiToLower DefaultMatcher "S ''t''"]
  by (simp add: DefaultMatcher_def)

subsection \<open>The score of a window against itself\<close>

lemma isSimilarSize_self: "isSimilarSize w w = (Width w \<noteq> 0 \<and> Height w \<noteq> 0)"
  by (simp add: isSimilarSize_def float_div_def)

lemma calculateScore_self:
  "calculateScore lw m w w =
     Inr (ExactTitleScore m + SameAppScore m
          + (if Width w \<noteq> 0 \<and> Height w \<noteq> 0 then SameSizeScore m else 0))"
  by (simp add: calculateScore_def scoreTitleMatch_def isSimilarSize_self)

text \<open>
  C6. A window whose width and height are 0, scored against itself with the default
  configuration, gets 150 and not 100 + 50 + 10 = 160: the relative difference of the
  widths is 0 / 0, which is not a number and is not below the tolerance, so the size bonus
  is not given.
\<close>

theorem calculateScore_self_zero_size:
  "calculateScore asciiToLower DefaultMatcher zeroSizeWindow zeroSizeWindow = Inr 150 \<and>
   ExactTitleScore DefaultMatcher + SameAppScore DefaultMatcher + SameSizeScore DefaultMatcher
     = 160 \<and>
   isSimilarSize zeroSizeWindow zeroSizeWindow = False"
  by (simp add: calculateScore_self isSimilarSize_self zeroSizeWindow_def mkWindow_def
      DefaultMatcher_def)

subsection \<open>The best match\<close>

lemma firstMaximum_step:
  assumes "firstMaximum m sc seen best"
  shows "firstMaximum m sc (seen @ [c])
           (if MinimumScore m \<le> sc c
            then (case best of
                    None \<Rightarrow> Some \<lparr>Window = c, Score = sc c\<rparr>
                  | Some b \<Rightarrow> if Score b < sc c then Some \<lparr>Window = c, Score = sc c\<rparr> else best)
            else best)"
proof (cases best)
  case None
  then have low: "list_all (\<lambda>d. sc d < MinimumScore m) seen"
    using assms by (simp add: firstMaximum_def)
  show ?thesis
  proof (cases "MinimumScore m \<le> sc c")
    case True
    have "list_all (\<lambda>d. sc d < sc c) seen"
      using True low by (auto simp: list_all_iff)
    then have "\<exists>before after. seen @ [c] = before @ c # after \<and>
             list_all (\<lambda>d. sc d < sc c) before \<and> list_all (\<lambda>d. sc d \<le> sc c) after"
      by (rule_tac x = seen in exI, rule_tac x = "[]" in exI) simp
    then show ?thesis
      using True None by (simp add: firstMaximum_def)
  next
    case False
    then show ?thesis using None low by (simp add: firstMaximum_def)
  qed
next
  case (Some b)
  with assms obtain before after where
    b: "Score b = sc (Window b)" "MinimumScore m \<le> Score b"
    and split: "seen = before @ Window b # after"
    and lt: "list_all (\<lambda>c. sc c < Score b) before"
    and le: "list_all (\<lambda>c. sc c \<le> Score b) after"
    by (auto simp: firstMaximum_def)
  show ?thesis
  proof (cases "MinimumScore m \<le> sc c \<and> Score b < sc c")
    case True
    have "list_all (\<lambda>d. sc d < sc c) seen"
      using True b lt le split by (auto simp: list_all_iff)
    then have "\<exists>before after. seen @ [c] = before @ c # after \<and>
             list_all (\<lambda>d. sc d < sc c) before \<and> list_all (\<lambda>d. sc d \<le> sc c) after"
      by (rule_tac x = seen in exI, rule_tac x = "[]" in exI) simp
    then show ?thesis
      using True Some by (simp add: firstMaximum_def)
  next
    case False
    then have c: "sc c \<le> Score b" using b by auto
    have "\<exists>before' after'. seen @ [c] = before' @ Window b # after' \<and>
             list_all (\<lambda>d. sc d < Score b) before' \<and> list_all (\<lambda>d. sc d \<le> Score b) after'"
      by (rule_tac x = before in exI, rule_tac x = "after @ [c]" in exI)
         (simp add: split lt le c)
    then have "firstMaximum m sc (seen @ [c]) best"
      using Some b by (simp add: firstMaximum_def)
    then show ?thesis using False Some by auto
  qed
qed

lemma FindBestMatch_loop_firstMaximum:
  "firstMaximum m (scoreValue lw m target) seen best \<Longrightarrow>
   \<exists>r. FindBestMatch_loop lw m target best candidates = Inr r \<and>
       firstMaximum m (scoreValue lw m target) (seen @ candidates) r"
proof (induction candidates arbitrary: seen best)
  case Nil
  then show ?case by simp
next
  case (Cons c cs)
  from firstMaximum_step [OF Cons.prems, of c]
  show ?case
    using Cons.IH [of "seen @ [c]"] by (simp add: calculateScore_scoreValue)
qed

lemma FindBestMatch_firstMaximum:
  "\<exists>r. FindBestMatch lw m target candidates = Inr r \<and>
       firstMaximum m (scoreValue lw m target) candidates r"
  using FindBestMatch_loop_firstMaximum [of m lw target "[]" None candidates]
  by (simp add: FindBestMatch_def firstMaximum_def)


text \<open>
  C1. \<open>FindBestMatch\<close> always returns, without a panic. When it returns no match, every
  candidate scores below \<open>MinimumScore\<close> (so also for the empty list). When it returns a
  match, the match is a candidate of the list together with its own score, the score is
  at least \<open>MinimumScore\<close>, every candidate before it in the list scores strictly less and
  every candidate after it scores at most as much: it is the first candidate with the
  maximal score.
\<close>

theorem FindBestMatch_first_maximum:
  "(\<forall>c. calculateScore lw m target c = Inr (scoreValue lw m target c)) \<and>
   (\<exists>r. FindBestMatch lw m target candidates = Inr r \<and>
     (case r of
        None \<Rightarrow> list_all (\<lambda>c. scoreValue lw m target c < MinimumScore m) candidates
      | Some b \<Rightarrow>
          Score b = scoreValue lw m target (Window b) \<and> MinimumScore m \<le> Score b \<and>
          (\<exists>before after. candidates = before @ Window b # after \<and>
             list_all (\<lambda>c. scoreValue lw m target c < Score b) before \<and>
             list_all (\<lambda>c. scoreValue lw m target c \<le> Score b) after)))"
  using FindBestMatch_firstMaximum [of lw m target candidates]
  by (simp add: calculateScore_scoreValue firstMaximum_def)

lemmas score_eval =
  calculateScore_def scoreTitleMatch_def tokenScore_def countCommonTokens_def
  stringSimilarity_def isSimilarSize_def float_div_def float_to_int_def go_div_def
  Fields_def isSpace_def ToLower_def asciiToLower_def mkWindow_def DefaultMatcher_def

lemma MinimumScore_default: "MinimumScore DefaultMatcher = 60"
  by (simp add: DefaultMatcher_def)

lemma score_editorA_terminalZ:
  "calculateScore asciiToLower DefaultMatcher editorA terminalZ = Inr 10"
  by (simp add: editorA_def terminalZ_def score_eval)

lemma score_editorA_editorUpperA:
  "calculateScore asciiToLower DefaultMatcher editorA editorUpperA = Inr 160"
  by (simp add: editorA_def editorUpperA_def score_eval)

lemma score_editorA_editorA:
  "calculateScore asciiToLower DefaultMatcher editorA editorA = Inr 160"
  by (simp add: editorA_def score_eval)

lemma score_editorA_editorB:
  "calculateScore asciiToLower DefaultMatcher editorA editorB = Inr 60"
  by (simp add: editorA_def editorB_def score_eval)

lemma score_editorB_editorB:
  "calculateScore asciiToLower DefaultMatcher editorB editorB = Inr 160"
  by (simp add: editorB_def score_eval)

lemma FindBestMatch_Nil: "FindBestMatch lw m target [] = Inr None"
  by (simp add: FindBestMatch_def)

lemma FindBestMatch_example:
  "FindBestMatch asciiToLower DefaultMatcher editorA [terminalZ, editorUpperA, editorA] =
     Inr (Some \<lparr>Window = editorUpperA, Score = 160\<rparr>)"
  by (simp add: FindBestMatch_def score_editorA_terminalZ score_editorA_editorUpperA
      score_editorA_editorA MinimumScore_default)

theorem FindBestMatch_first_maximum_witness:
  "FindBestMatch asciiToLower DefaultMatcher editorA [terminalZ, editorUpperA, editorA] =
     Inr (Some \<lparr>Window = editorUpperA, Score = 160\<rparr>) \<and>
   scoreValue asciiToLower DefaultMatcher editorA terminalZ = 10 \<and>
   scoreValue asciiToLower DefaultMatcher editorA editorUpperA = 160 \<and>
   scoreValue asciiToLower DefaultMatcher editorA editorA = 160 \<and>
   FindBestMatch asciiToLower DefaultMatcher editorA [terminalZ] = Inr None \<and>
   FindBestMatch asciiToLower DefaultMatcher editorA [] = Inr None"
proof -
  have sv: "\<And>c. calculateScore asciiToLower DefaultMatcher editorA c =
      Inr (scoreValue asciiToLower DefaultMatcher editorA c)"
    using FindBestMatch_first_maximum
      [of asciiToLower DefaultMatcher editorA "[terminalZ, editorUpperA, editorA]"]
    by blast
  have "scoreValue asciiToLower DefaultMatcher editorA terminalZ = 10"
    using sv [of terminalZ] by (simp add: score_editorA_terminalZ)
  moreover have "scoreValue asciiToLower DefaultMatcher editorA editorUpperA = 160"
    using sv [of editorUpperA] by (simp add: score_editorA_editorUpperA)
  moreover have "scoreValue asciiToLower DefaultMatcher editorA editorA = 160"
    using sv [of editorA] by (simp add: score_editorA_editorA)
  moreover have "FindBestMatch asciiToLower DefaultMatcher editorA [terminalZ] = Inr None"
    by (simp add: FindBestMatch_def score_editorA_terminalZ MinimumScore_default)
  moreover have "FindBestMatch asciiToLower DefaultMatcher editorA [] = Inr None"
    by (simp add: FindBestMatch_def)
  ultimately show ?thesis
    using FindBestMatch_example by simp
qed

subsection \<open>Greedy assignment\<close>

lemma FindBestMatch_member:
  assumes "FindBestMatch lw m target candidates = Inr (Some b)"
  shows "Window b \<in> set candidates"
  using FindBestMatch_firstMaximum [of lw m target candidates] assms
  by (auto simp: firstMaximum_def)

lemma FindBestMatch_returns: "\<exists>r. FindBestMatch lw m target candidates = Inr r"
  using FindBestMatch_firstMaximum [of lw m target candidates] by blast

lemma removeWindow_set:
  "set (removeWindow pool c) = {w \<in> set pool. \<not> sameTitleApp w c}"
  by (auto simp: removeWindow_def sameTitleApp_def)

lemma noReuse_step:
  assumes inv: "noReuse results pool candidates" and mem: "Window b \<in> set pool"
  shows "noReuse (results(k \<mapsto> b)) (removeWindow pool (Window b)) candidates"
  unfolding noReuse_def
proof (intro conjI allI impI)
  fix k' r
  assume "(results(k \<mapsto> b)) k' = Some r"
  then have r: "r = b \<or> results k' = Some r" by (auto split: if_splits)
  then show "Window r \<in> set candidates"
    using inv mem by (auto simp: noReuse_def)
  show "\<forall>w \<in> set (removeWindow pool (Window b)). \<not> sameTitleApp w (Window r)"
    using r inv by (auto simp: noReuse_def removeWindow_set)
next
  fix k1 k2 r1 r2
  assume a: "(results(k \<mapsto> b)) k1 = Some r1 \<and> (results(k \<mapsto> b)) k2 = Some r2 \<and> k1 \<noteq> k2"
  have old: "\<And>k' r. results k' = Some r \<Longrightarrow> \<not> sameTitleApp (Window b) (Window r)"
    using inv mem by (auto simp: noReuse_def)
  have sym: "\<And>w v. sameTitleApp w v = sameTitleApp v w"
    by (auto simp: sameTitleApp_def)
  show "\<not> sameTitleApp (Window r1) (Window r2)"
  proof (cases "k1 = k")
    case True
    then have "r1 = b" "results k2 = Some r2" using a by auto
    then show ?thesis using old by blast
  next
    case False
    show ?thesis
    proof (cases "k2 = k")
      case True
      then have "r2 = b" "results k1 = Some r1" using a False by auto
      then show ?thesis using old sym by blast
    next
      case k2: False
      then have "results k1 = Some r1" "results k2 = Some r2" using a False by auto
      then show ?thesis using inv a by (auto simp: noReuse_def)
    qed
  qed
next
  show "set (removeWindow pool (Window b)) \<subseteq> set candidates"
    using inv by (auto simp: noReuse_def removeWindow_set)
qed

lemma MatchWindows_loop_noReuse:
  "noReuse results pool candidates \<Longrightarrow>
   \<exists>res. MatchWindows_loop lw m results pool targets = Inr res \<and>
        (\<exists>pool'. noReuse res pool' candidates)"
proof (induction targets arbitrary: results pool)
  case Nil
  then show ?case by auto
next
  case (Cons t ts)
  obtain r where r: "FindBestMatch lw m t pool = Inr r"
    using FindBestMatch_returns by blast
  show ?case
  proof (cases r)
    case None
    then show ?thesis using r Cons by simp
  next
    case (Some b)
    then have "Window b \<in> set pool"
      using r FindBestMatch_member by blast
    then have "noReuse (results(WindowTitle t \<mapsto> b)) (removeWindow pool (Window b)) candidates"
      using Cons.prems by (rule noReuse_step [rotated])
    from Cons.IH [OF this] obtain res pool' where
      "MatchWindows_loop lw m (results(WindowTitle t \<mapsto> b)) (removeWindow pool (Window b)) ts
         = Inr res" and "noReuse res pool' candidates"
      by blast
    moreover have "MatchWindows_loop lw m results pool (t # ts) =
        MatchWindows_loop lw m (results(WindowTitle t \<mapsto> b)) (removeWindow pool (Window b)) ts"
      using r Some by simp
    ultimately show ?thesis by metis
  qed
qed

lemma MatchWindows_noReuse:
  "\<exists>res. MatchWindows lw m targets candidates = Inr res \<and>
        (\<exists>pool'. noReuse res pool' candidates)"
  using MatchWindows_loop_noReuse [of Map.empty candidates candidates lw m targets]
  by (simp add: MatchWindows_def noReuse_def)


lemma score_narrowT_narrowT:
  "calculateScore asciiToLower DefaultMatcher narrowT narrowT = Inr 160"
  by (simp add: narrowT_def score_eval)

lemma score_narrowT_wideT:
  "calculateScore asciiToLower DefaultMatcher narrowT wideT = Inr 150"
  by (simp add: narrowT_def wideT_def score_eval)

lemma score_wideLowerT_wideT:
  "calculateScore asciiToLower DefaultMatcher wideLowerT wideT = Inr 160"
  by (simp add: wideLowerT_def wideT_def score_eval)

lemma FindBestMatch_narrowT:
  "FindBestMatch asciiToLower DefaultMatcher narrowT [narrowT, wideT] =
     Inr (Some \<lparr>Window = narrowT, Score = 160\<rparr>)"
  by (simp add: FindBestMatch_def score_narrowT_narrowT score_narrowT_wideT
      MinimumScore_default)

lemma removeWindow_narrowT: "removeWindow [narrowT, wideT] narrowT = []"
  by (simp add: removeWindow_def narrowT_def wideT_def mkWindow_def)

text \<open>
  What the loop of \<open>MatchWindows\<close> guarantees whatever the windows are: it never panics,
  every recorded match is one of the candidates, and two entries of the result never hold
  candidates with the same title and application. \<open>removeWindow\<close> keeps exactly the
  windows that differ from the removed one in title or in application.
\<close>

lemma MatchWindows_no_reuse:
  "set (removeWindow pool c) =
     {w \<in> set pool. \<not> (WindowTitle w = WindowTitle c \<and> AppName w = AppName c)} \<and>
   (\<exists>results. MatchWindows lw m targets candidates = Inr results \<and>
     (\<forall>k k' r r'. results k = Some r \<and> results k' = Some r' \<and> k \<noteq> k' \<longrightarrow>
        \<not> (WindowTitle (Window r) = WindowTitle (Window r') \<and>
           AppName (Window r) = AppName (Window r'))) \<and>
     (\<forall>k r. results k = Some r \<longrightarrow> Window r \<in> set candidates))"
proof -
  have "set (removeWindow pool c) =
     {w \<in> set pool. \<not> (WindowTitle w = WindowTitle c \<and> AppName w = AppName c)}"
    by (simp add: removeWindow_set sameTitleApp_def)
  moreover have "\<exists>results. MatchWindows lw m targets candidates = Inr results \<and>
     (\<forall>k k' r r'. results k = Some r \<and> results k' = Some r' \<and> k \<noteq> k' \<longrightarrow>
        \<not> (WindowTitle (Window r) = WindowTitle (Window r') \<and>
           AppName (Window r) = AppName (Window r'))) \<and>
     (\<forall>k r. results k = Some r \<longrightarrow> Window r \<in> set candidates)"
    using MatchWindows_noReuse [of lw m targets candidates]
    unfolding noReuse_def sameTitleApp_def by blast
  ultimately show ?thesis by blast
qed

lemma FindBestMatch_editorA_pool:
  "FindBestMatch asciiToLower DefaultMatcher editorA [editorB, editorA] =
     Inr (Some \<lparr>Window = editorA, Score = 160\<rparr>)"
  by (simp add: FindBestMatch_def score_editorA_editorB score_editorA_editorA
      MinimumScore_default)

lemma FindBestMatch_editorB_pool:
  "FindBestMatch asciiToLower DefaultMatcher editorB [editorB] =
     Inr (Some \<lparr>Window = editorB, Score = 160\<rparr>)"
  by (simp add: FindBestMatch_def score_editorB_editorB MinimumScore_default)

lemma removeWindow_editorA: "removeWindow [editorB, editorA] editorA = [editorB]"
  by (simp add: removeWindow_def editorA_def editorB_def mkWindow_def)

lemma MatchWindows_example:
  "MatchWindows asciiToLower DefaultMatcher [editorA, editorB] [editorB, editorA] =
     Inr [S ''a.go'' \<mapsto> \<lparr>Window = editorA, Score = 160\<rparr>,
          S ''b.go'' \<mapsto> \<lparr>Window = editorB, Score = 160\<rparr>]"
proof -
  have t: "WindowTitle editorA = S ''a.go''" "WindowTitle editorB = S ''b.go''"
    by (simp_all add: editorA_def editorB_def mkWindow_def)
  show ?thesis
    by (simp add: MatchWindows_def FindBestMatch_editorA_pool FindBestMatch_editorB_pool
        removeWindow_editorA t)
qed

text \<open>
  C2. After recording a match, \<open>MatchWindows\<close> does not remove only the candidate it has
  recorded. Here the two candidates have one title and one application and the widths 100
  and 200. The first target is matched with the narrow candidate, with score 160, and
  \<open>removeWindow\<close> then empties the pool: the wide candidate, which has another width and
  was assigned to no target, is gone too. The second target, which the wide candidate
  alone matches with score 160, is left without an entry in the result.
\<close>

theorem MatchWindows_drops_unused_candidate:
  "FindBestMatch asciiToLower DefaultMatcher narrowT [narrowT, wideT] =
     Inr (Some \<lparr>Window = narrowT, Score = 160\<rparr>) \<and>
   Width wideT = 200 \<and> Width narrowT = 100 \<and>
   removeWindow [narrowT, wideT] narrowT = [] \<and>
   FindBestMatch asciiToLower DefaultMatcher wideLowerT [wideT] =
     Inr (Some \<lparr>Window = wideT, Score = 160\<rparr>) \<and>
   MatchWindows asciiToLower DefaultMatcher [narrowT, wideLowerT] [narrowT, wideT] =
     Inr [S ''T'' \<mapsto> \<lparr>Window = narrowT, Score = 160\<rparr>]"
proof -
  have t: "WindowTitle narrowT = S ''T''"
    by (simp add: narrowT_def mkWindow_def)
  have "MatchWindows asciiToLower DefaultMatcher [narrowT, wideLowerT] [narrowT, wideT] =
      Inr [S ''T'' \<mapsto> \<lparr>Window = narrowT, Score = 160\<rparr>]"
    by (simp add: MatchWindows_def FindBestMatch_narrowT removeWindow_narrowT t
        FindBestMatch_Nil)
  moreover have "FindBestMatch asciiToLower DefaultMatcher wideLowerT [wideT] =
      Inr (Some \<lparr>Window = wideT, Score = 160\<rparr>)"
    by (simp add: FindBestMatch_def score_wideLowerT_wideT MinimumScore_default)
  moreover have "Width wideT = 200" "Width narrowT = 100"
    by (simp_all add: wideT_def narrowT_def mkWindow_def)
  ultimately show ?thesis
    using removeWindow_narrowT FindBestMatch_narrowT by simp
qed

theorem MatchWindows_drops_unused_candidate_witness:
  "wideT \<in> set [narrowT, wideT] \<and> Width wideT = 200 \<and> Width narrowT = 100 \<and>
   wideT \<notin> set (removeWindow [narrowT, wideT] narrowT)"
  using MatchWindows_drops_unused_candidate by simp

section \<open>Properties of the orchestrator\<close>

subsection \<open>The loops of the orchestrator\<close>

lemma platform_RestoreWindow_eq:
  "platform_RestoreWindow platform w world =
     (fst (RestoreWindow platform w (platformState world)),
      \<lparr>platformState = snd (RestoreWindow platform w (platformState world)),
       calls = calls world @ [CallRestoreWindow w]\<rparr>)"
  by (simp add: platform_RestoreWindow_def split: prod.splits)

lemma restoreWindows_report:
  "restoreWindows platform report ws world = (report', world') \<Longrightarrow>
   report' = report
     \<lparr>RestoredWindows :=
        RestoredWindows report + successes (restoreOutcomes platform ws (platformState world)),
      FailedWindows :=
        FailedWindows report
        @ map fst (failureEntries ws (restoreOutcomes platform ws (platformState world))),
      Errors :=
        Errors report
        @ map (\<lambda>(t, e). t @ S '': '' @ e)
            (failureEntries ws (restoreOutcomes platform ws (platformState world)))\<rparr>"
proof (induction ws arbitrary: report world)
  case Nil
  then show ?case by (simp add: successes_def)
next
  case (Cons w ws)
  obtain err p' where rw: "RestoreWindow platform w (platformState world) = (err, p')"
    by (cases "RestoreWindow platform w (platformState world)")
  define world1 where
    "world1 = \<lparr>platformState = p', calls = calls world @ [CallRestoreWindow w]\<rparr>"
  have out: "restoreOutcomes platform (w # ws) (platformState world) =
      err # restoreOutcomes platform ws (platformState world1)"
    by (simp add: rw world1_def)
  show ?case
  proof (cases err)
    case None
    then have "restoreWindows platform (report\<lparr>RestoredWindows := RestoredWindows report + 1\<rparr>)
        ws world1 = (report', world')"
      using Cons.prems by (simp add: platform_RestoreWindow_def rw world1_def)
    from Cons.IH [OF this] show ?thesis
      unfolding out using None by (simp add: successes_def)
  next
    case (Some e)
    then have "restoreWindows platform
        (report\<lparr>FailedWindows := FailedWindows report @ [WindowTitle w],
                Errors := Errors report @ [WindowTitle w @ S '': '' @ e]\<rparr>)
        ws world1 = (report', world')"
      using Cons.prems by (simp add: platform_RestoreWindow_def rw world1_def)
    from Cons.IH [OF this] show ?thesis
      unfolding out using Some by (simp add: successes_def)
  qed
qed

lemma restoreWindows_calls:
  "calls (snd (restoreWindows platform report ws world)) =
     calls world @ map CallRestoreWindow ws"
proof (induction ws arbitrary: report world)
  case Nil
  then show ?case by simp
next
  case (Cons w ws)
  show ?case
    by (cases "fst (RestoreWindow platform w (platformState world))")
       (simp_all add: platform_RestoreWindow_eq Cons.IH)
qed

lemma length_restoreOutcomes: "length (restoreOutcomes platform ws p) = length ws"
  by (induction ws arbitrary: p) (auto split: prod.splits)

lemma failures_and_successes:
  "length ws = length outcomes \<Longrightarrow>
   int (length (failureEntries ws outcomes)) + successes outcomes = int (length ws)"
  by (induction ws outcomes rule: failureEntries.induct) (simp_all add: successes_def)

lemma restoreCalls_append:
  "restoreCalls (xs @ ys) = restoreCalls xs @ restoreCalls ys"
  by (simp add: restoreCalls_def)

lemma restoreCalls_GetWindows: "restoreCalls [CallGetWindows] = []"
  by (simp add: restoreCalls_def)

lemma validateApps_loop_set:
  "set (validateApps_loop available checked missing ws) =
     set missing \<union> {AppName w | w. w \<in> set ws \<and> AppName w \<notin> checked \<and> AppName w \<notin> available}"
  by (induction ws arbitrary: checked missing) auto

lemma validateApps_calls:
  "calls (snd (validateApps platform ws world)) = calls world @ [CallGetWindows]"
  by (simp add: validateApps_def platform_GetWindows_def split: prod.splits option.splits)

lemma validateApps_enumeration_fails:
  "GetWindows platform (platformState world) = ((current, Some err), p') \<Longrightarrow>
   validateApps platform ws world =
     ([], \<lparr>platformState = p', calls = calls world @ [CallGetWindows]\<rparr>)"
  by (simp add: validateApps_def platform_GetWindows_def)

lemma validateApps_missing:
  "GetWindows platform (platformState world) = ((current, None), p') \<Longrightarrow>
   set (fst (validateApps platform ws world)) =
     {AppName w | w. w \<in> set ws \<and> AppName w \<notin> AppName ` set current}"
  by (simp add: validateApps_def platform_GetWindows_def validateApps_loop_set)


subsection \<open>Restore\<close>

lemma Restore_loaded:
  assumes "GetSnapshotByID repo snapshotID = (Some s, None)"
    and "repo_GetWindows repo snapshotID = (ws, None)"
  shows "Restore repo platform snapshotID opts world =
     (let report =
            \<lparr>report_SnapshotID = snapshotID, TotalWindows = int (length ws),
             RestoredWindows = 0, FailedWindows = [], MissingApps = [], Errors = [],
             Success = False, report_DryRun = False, Error = [], Message = []\<rparr>
      in if ValidateBeforeRestore opts
         then
           (let missing = fst (validateApps platform ws world);
                world' = snd (validateApps platform ws world)
            in if missing \<noteq> [] \<and> \<not> SkipMissingApps opts
               then
                 ((Some (report\<lparr>MissingApps := missing, Success := False,
                           Error := S ''missing applications: '' @ format_strings missing\<rparr>),
                   Some (S ''cannot restore: missing applications'')), world')
               else Restore_after_validation platform opts (s\<lparr>Windows := ws\<rparr>)
                      (report\<lparr>MissingApps := missing\<rparr>) world')
         else Restore_after_validation platform opts (s\<lparr>Windows := ws\<rparr>) report world)"
  using assms by (simp add: Restore_def Let_def split: prod.splits)

lemma Restore_after_validation_run:
  assumes "\<not> DryRun opts" and "Windows s = ws"
  shows "\<exists>report' world'.
     Restore_after_validation platform opts s report world = ((Some report', None), world') \<and>
     (let outcomes = restoreOutcomes platform ws (platformState world)
      in TotalWindows report' = TotalWindows report \<and>
         MissingApps report' = MissingApps report \<and>
         Error report' = Error report \<and>
         report_DryRun report' = report_DryRun report \<and>
         RestoredWindows report' = RestoredWindows report + successes outcomes \<and>
         FailedWindows report' = FailedWindows report @ map fst (failureEntries ws outcomes) \<and>
         Errors report' =
           Errors report @ map (\<lambda>(t, e). t @ S '': '' @ e) (failureEntries ws outcomes) \<and>
         Success report' = (0 < RestoredWindows report') \<and>
         calls world' = calls world @ map CallRestoreWindow ws)"
proof -
  obtain r w where run: "restoreWindows platform report ws world = (r, w)"
    by (cases "restoreWindows platform report ws world")
  have c: "calls w = calls world @ map CallRestoreWindow ws"
    using restoreWindows_calls [of platform report ws world] run by simp
  show ?thesis
    using assms c restoreWindows_report [OF run]
    by (simp add: Restore_after_validation_def run Let_def)
qed

text \<open>
  C3. When the snapshot and its windows load, the run is not a dry run and the validation
  does not abort (it is off, or the missing applications are skipped, or none is
  missing), \<open>Restore\<close> returns a report and no error. \<open>RestoreWindow\<close> is called once for
  every stored window, in order, whatever the earlier calls answered. \<open>RestoredWindows\<close>
  is the number of calls that succeeded, \<open>FailedWindows\<close> and \<open>Errors\<close> hold one entry for
  each call that failed, in order, the two counts add up to \<open>TotalWindows\<close>, and \<open>Success\<close>
  holds exactly when at least one window was restored.
\<close>

theorem Restore_partial_failures:
  assumes snapshot: "GetSnapshotByID repo snapshotID = (Some s, None)"
    and windows: "repo_GetWindows repo snapshotID = (ws, None)"
    and no_dry_run: "\<not> DryRun opts"
    and validated: "\<not> ValidateBeforeRestore opts \<or> SkipMissingApps opts \<or>
                    fst (validateApps platform ws world) = []"
  shows "\<exists>report world'.
     Restore repo platform snapshotID opts world = ((Some report, None), world') \<and>
     (let world1 = (if ValidateBeforeRestore opts then snd (validateApps platform ws world)
                    else world);
          outcomes = restoreOutcomes platform ws (platformState world1)
      in TotalWindows report = int (length ws) \<and>
         RestoredWindows report = successes outcomes \<and>
         FailedWindows report = map fst (failureEntries ws outcomes) \<and>
         Errors report = map (\<lambda>(t, e). t @ S '': '' @ e) (failureEntries ws outcomes) \<and>
         RestoredWindows report + int (length (FailedWindows report)) = TotalWindows report \<and>
         Success report = (0 < RestoredWindows report) \<and>
         calls world' = calls world1 @ map CallRestoreWindow ws)"
proof -
  define report0 where "report0 =
     \<lparr>report_SnapshotID = snapshotID, TotalWindows = int (length ws),
      RestoredWindows = 0, FailedWindows = [], MissingApps = [], Errors = [],
      Success = False, report_DryRun = False, Error = [], Message = []\<rparr>"
  define world1 where "world1 =
     (if ValidateBeforeRestore opts then snd (validateApps platform ws world) else world)"
  define report1 where "report1 =
     (if ValidateBeforeRestore opts
      then report0\<lparr>MissingApps := fst (validateApps platform ws world)\<rparr> else report0)"
  define outcomes where "outcomes = restoreOutcomes platform ws (platformState world1)"
  have fields: "TotalWindows report1 = int (length ws)" "RestoredWindows report1 = 0"
    "FailedWindows report1 = []" "Errors report1 = []"
    by (simp_all add: report1_def report0_def)
  have "Restore repo platform snapshotID opts world =
      Restore_after_validation platform opts (s\<lparr>Windows := ws\<rparr>) report1 world1"
    using validated
    by (auto simp: Restore_loaded [OF snapshot windows] Let_def report0_def report1_def
        world1_def)
  moreover obtain report world' where
    run: "Restore_after_validation platform opts (s\<lparr>Windows := ws\<rparr>) report1 world1 =
       ((Some report, None), world')"
    and props: "TotalWindows report = TotalWindows report1"
      "RestoredWindows report = RestoredWindows report1 + successes outcomes"
      "FailedWindows report = FailedWindows report1 @ map fst (failureEntries ws outcomes)"
      "Errors report =
         Errors report1 @ map (\<lambda>(t, e). t @ S '': '' @ e) (failureEntries ws outcomes)"
      "Success report = (0 < RestoredWindows report)"
      "calls world' = calls world1 @ map CallRestoreWindow ws"
    using Restore_after_validation_run [OF no_dry_run, of "s\<lparr>Windows := ws\<rparr>" ws platform report1 world1]
    unfolding outcomes_def Let_def by auto
  moreover have "RestoredWindows report + int (length (FailedWindows report)) = TotalWindows report"
    using failures_and_successes [of ws outcomes] props fields
    by (simp add: outcomes_def length_restoreOutcomes)
  ultimately show ?thesis
    using props fields unfolding Let_def world1_def [symmetric] outcomes_def [symmetric]
    by simp
qed


lemma exampleRepo_s1:
  "GetSnapshotByID exampleRepo (S ''s1'') = (Some exampleSnapshot, None)"
  "repo_GetWindows exampleRepo (S ''s1'') = ([editorA, terminalZ, editorB], None)"
  by (simp_all add: exampleRepo_def)

lemma example_titles:
  "WindowTitle editorA = S ''a.go''" "WindowTitle terminalZ = S ''zz''"
  "WindowTitle editorB = S ''b.go''" "WindowTitle wideT = S ''T''"
  by (simp_all add: editorA_def terminalZ_def editorB_def wideT_def mkWindow_def)

lemma example_apps:
  "AppName editorA = S ''Ed''" "AppName terminalZ = S ''Term''" "AppName editorB = S ''Ed''"
  by (simp_all add: editorA_def terminalZ_def editorB_def mkWindow_def)

lemma flaky_outcomes:
  "restoreOutcomes flakyPlatform [editorA, terminalZ, editorB] 0 =
     [None, Some (S ''SetWindowPos failed''), None]"
  by (simp add: flakyPlatform_def)

lemma flaky_validateApps:
  "validateApps flakyPlatform [editorA, terminalZ, editorB] startWorld =
     ([S ''Term''], \<lparr>platformState = 0, calls = [CallGetWindows]\<rparr>)"
  by (simp add: validateApps_def platform_GetWindows_def flakyPlatform_def startWorld_def
      example_apps)

lemma Restore_flaky:
  "Restore exampleRepo flakyPlatform (S ''s1'')
     \<lparr>ValidateBeforeRestore = False, SkipMissingApps = False, DryRun = False\<rparr> startWorld =
   ((Some \<lparr>report_SnapshotID = S ''s1'', TotalWindows = 3, RestoredWindows = 2,
           FailedWindows = [S ''zz''], MissingApps = [],
           Errors = [S ''zz: SetWindowPos failed''], Success = True, report_DryRun = False,
           Error = [], Message = S ''Restored 2/3 windows''\<rparr>, None),
    \<lparr>platformState = 3,
     calls = [CallRestoreWindow editorA, CallRestoreWindow terminalZ,
              CallRestoreWindow editorB]\<rparr>)"
  by (subst Restore_loaded [OF exampleRepo_s1])
     (simp add: Restore_after_validation_def startWorld_def platform_RestoreWindow_def
        flakyPlatform_def example_titles format_int_def Let_def)

theorem Restore_partial_failures_witness:
  "Restore exampleRepo flakyPlatform (S ''s1'')
     \<lparr>ValidateBeforeRestore = False, SkipMissingApps = False, DryRun = False\<rparr> startWorld =
   ((Some \<lparr>report_SnapshotID = S ''s1'', TotalWindows = 3, RestoredWindows = 2,
           FailedWindows = [S ''zz''], MissingApps = [],
           Errors = [S ''zz: SetWindowPos failed''], Success = True, report_DryRun = False,
           Error = [], Message = S ''Restored 2/3 windows''\<rparr>, None),
    \<lparr>platformState = 3,
     calls = [CallRestoreWindow editorA, CallRestoreWindow terminalZ,
              CallRestoreWindow editorB]\<rparr>) \<and>
   restoreOutcomes flakyPlatform [editorA, terminalZ, editorB] 0 =
     [None, Some (S ''SetWindowPos failed''), None] \<and>
   successes [None, Some (S ''SetWindowPos failed''), None] = 2"
proof -
  let ?opts = "\<lparr>ValidateBeforeRestore = False, SkipMissingApps = False, DryRun = False\<rparr>"
  have "\<not> DryRun ?opts"
    and "\<not> ValidateBeforeRestore ?opts \<or> SkipMissingApps ?opts \<or>
         fst (validateApps flakyPlatform [editorA, terminalZ, editorB] startWorld) = []"
    by simp_all
  from Restore_partial_failures [OF exampleRepo_s1 this]
  have "\<exists>report world'.
      Restore exampleRepo flakyPlatform (S ''s1'') ?opts startWorld = ((Some report, None), world')"
    by blast
  then show ?thesis
    using Restore_flaky flaky_outcomes by (simp add: successes_def)
qed

subsection \<open>The validation gate\<close>

text \<open>
  C4. When the snapshot and its windows load, validation is requested without skipping,
  the platform enumerates its windows, and an application of a stored window is not among
  the applications of the current windows, \<open>Restore\<close> stops at the gate.
\<close>

theorem Restore_validation_gate:
  assumes snapshot: "GetSnapshotByID repo snapshotID = (Some s, None)"
    and windows: "repo_GetWindows repo snapshotID = (ws, None)"
    and validate: "ValidateBeforeRestore opts" and no_skip: "\<not> SkipMissingApps opts"
    and enumerated: "GetWindows platform (platformState world) = ((current, None), p')"
    and absent: "\<exists>w \<in> set ws. AppName w \<notin> AppName ` set current"
  shows "\<exists>report world'.
     Restore repo platform snapshotID opts world =
       ((Some report, Some (S ''cannot restore: missing applications'')), world') \<and>
     \<not> Success report \<and>
     MissingApps report \<noteq> [] \<and>
     set (MissingApps report) =
       {AppName w | w. w \<in> set ws \<and> AppName w \<notin> AppName ` set current} \<and>
     Error report = S ''missing applications: '' @ format_strings (MissingApps report) \<and>
     RestoredWindows report = 0 \<and>
     TotalWindows report = int (length ws) \<and>
     calls world' = calls world @ [CallGetWindows] \<and>
     restoreCalls (calls world') = restoreCalls (calls world)"
proof -
  define missing where "missing = fst (validateApps platform ws world)"
  have m: "set missing = {AppName w | w. w \<in> set ws \<and> AppName w \<notin> AppName ` set current}"
    unfolding missing_def by (rule validateApps_missing [OF enumerated])
  then have ne: "missing \<noteq> []"
    using absent by auto
  have c: "calls (snd (validateApps platform ws world)) = calls world @ [CallGetWindows]"
    by (rule validateApps_calls)
  show ?thesis
    using ne m c validate no_skip
    by (simp add: Restore_loaded [OF snapshot windows] Let_def missing_def [symmetric]
        restoreCalls_append restoreCalls_GetWindows)
qed


lemma flaky_enumerates:
  "GetWindows flakyPlatform (platformState startWorld) = (([editorA], None), 0)"
  by (simp add: flakyPlatform_def startWorld_def)

lemma Restore_flaky_gate:
  "Restore exampleRepo flakyPlatform (S ''s1'')
     \<lparr>ValidateBeforeRestore = True, SkipMissingApps = False, DryRun = dry\<rparr> startWorld =
   ((Some \<lparr>report_SnapshotID = S ''s1'', TotalWindows = 3, RestoredWindows = 0,
           FailedWindows = [], MissingApps = [S ''Term''], Errors = [], Success = False,
           report_DryRun = False, Error = S ''missing applications: [Term]'', Message = []\<rparr>,
     Some (S ''cannot restore: missing applications'')),
    \<lparr>platformState = 0, calls = [CallGetWindows]\<rparr>)"
  by (subst Restore_loaded [OF exampleRepo_s1])
     (simp add: flaky_validateApps format_strings_def)

theorem Restore_validation_gate_witness:
  "Restore exampleRepo flakyPlatform (S ''s1'')
     \<lparr>ValidateBeforeRestore = True, SkipMissingApps = False, DryRun = False\<rparr> startWorld =
   ((Some \<lparr>report_SnapshotID = S ''s1'', TotalWindows = 3, RestoredWindows = 0,
           FailedWindows = [], MissingApps = [S ''Term''], Errors = [], Success = False,
           report_DryRun = False, Error = S ''missing applications: [Term]'', Message = []\<rparr>,
     Some (S ''cannot restore: missing applications'')),
    \<lparr>platformState = 0, calls = [CallGetWindows]\<rparr>) \<and>
   terminalZ \<in> set [editorA, terminalZ, editorB] \<and>
   AppName terminalZ \<notin> AppName ` set [editorA]"
proof -
  let ?opts = "\<lparr>ValidateBeforeRestore = True, SkipMissingApps = False, DryRun = False\<rparr>"
  have absent: "AppName terminalZ \<notin> AppName ` set [editorA]"
    by (simp add: example_apps)
  then have "\<exists>w \<in> set [editorA, terminalZ, editorB]. AppName w \<notin> AppName ` set [editorA]"
    by simp
  moreover have "ValidateBeforeRestore ?opts" "\<not> SkipMissingApps ?opts"
    by simp_all
  ultimately have "\<exists>report world'.
      Restore exampleRepo flakyPlatform (S ''s1'') ?opts startWorld =
        ((Some report, Some (S ''cannot restore: missing applications'')), world') \<and>
      \<not> Success report"
    using Restore_validation_gate [OF exampleRepo_s1 _ _ flaky_enumerates, of ?opts]
    by blast
  then show ?thesis
    using Restore_flaky_gate [of False] absent by simp
qed

subsection \<open>Dry run\<close>

text \<open>
  C5, as the claim states it, fails: a dry run with validation requested, without skipping,
  and with a missing application stops at the validation gate, and its report has neither
  \<open>DryRun\<close> nor \<open>Success\<close> set.
\<close>

theorem Restore_dry_run_counterexample:
  "DryRun \<lparr>ValidateBeforeRestore = True, SkipMissingApps = False, DryRun = True\<rparr> \<and>
   Restore exampleRepo flakyPlatform (S ''s1'')
     \<lparr>ValidateBeforeRestore = True, SkipMissingApps = False, DryRun = True\<rparr> startWorld =
   ((Some \<lparr>report_SnapshotID = S ''s1'', TotalWindows = 3, RestoredWindows = 0,
           FailedWindows = [], MissingApps = [S ''Term''], Errors = [], Success = False,
           report_DryRun = False, Error = S ''missing applications: [Term]'', Message = []\<rparr>,
     Some (S ''cannot restore: missing applications'')),
    \<lparr>platformState = 0, calls = [CallGetWindows]\<rparr>)"
  using Restore_flaky_gate [of True] by simp

lemma validateApps_calls_pair:
  "validateApps platform ws world = (missing, world') \<Longrightarrow>
   calls world' = calls world @ [CallGetWindows]"
  using validateApps_calls [of platform ws world] by simp

lemma Restore_dry_run_no_restore_call:
  "DryRun opts \<Longrightarrow>
   restoreCalls (calls (snd (Restore repo platform snapshotID opts world))) =
     restoreCalls (calls world)"
  by (auto simp: Restore_def Restore_after_validation_def Let_def restoreCalls_append
      restoreCalls_GetWindows dest!: validateApps_calls_pair split: prod.splits option.splits)

text \<open>
  C5, amended. A call of \<open>Restore\<close> with \<open>DryRun\<close> never calls \<open>RestoreWindow\<close>. When the
  snapshot and its windows load and the validation does not abort (it is off, or the
  missing applications are skipped, or none is missing), it returns no error and a report
  with \<open>DryRun\<close> and \<open>Success\<close> set, no window restored, and the message that no changes
  were made.
\<close>

theorem Restore_dry_run:
  assumes dry: "DryRun opts"
  shows "restoreCalls (calls (snd (Restore repo platform snapshotID opts world))) =
       restoreCalls (calls world) \<and>
     (\<forall>s ws. GetSnapshotByID repo snapshotID = (Some s, None) \<and>
         repo_GetWindows repo snapshotID = (ws, None) \<and>
         (\<not> ValidateBeforeRestore opts \<or> SkipMissingApps opts \<or>
          fst (validateApps platform ws world) = []) \<longrightarrow>
         (\<exists>report. fst (Restore repo platform snapshotID opts world) = (Some report, None) \<and>
            report_DryRun report \<and> Success report \<and>
            Message report = S ''Dry run completed - no changes made'' \<and>
            RestoredWindows report = 0 \<and> TotalWindows report = int (length ws)))"
proof (intro conjI allI impI)
  show "restoreCalls (calls (snd (Restore repo platform snapshotID opts world))) =
      restoreCalls (calls world)"
    using dry by (rule Restore_dry_run_no_restore_call)
next
  fix s ws
  assume a: "GetSnapshotByID repo snapshotID = (Some s, None) \<and>
         repo_GetWindows repo snapshotID = (ws, None) \<and>
         (\<not> ValidateBeforeRestore opts \<or> SkipMissingApps opts \<or>
          fst (validateApps platform ws world) = [])"
  then have snapshot: "GetSnapshotByID repo snapshotID = (Some s, None)"
    and windows: "repo_GetWindows repo snapshotID = (ws, None)"
    and gate: "\<not> ValidateBeforeRestore opts \<or> SkipMissingApps opts \<or>
          fst (validateApps platform ws world) = []"
    by simp_all
  show "\<exists>report. fst (Restore repo platform snapshotID opts world) = (Some report, None) \<and>
            report_DryRun report \<and> Success report \<and>
            Message report = S ''Dry run completed - no changes made'' \<and>
            RestoredWindows report = 0 \<and> TotalWindows report = int (length ws)"
    using gate dry
    by (auto simp: Restore_loaded [OF snapshot windows] Restore_after_validation_def Let_def)
qed

lemma Restore_flaky_dry_run:
  "Restore exampleRepo flakyPlatform (S ''s1'')
     \<lparr>ValidateBeforeRestore = False, SkipMissingApps = False, DryRun = True\<rparr> startWorld =
   ((Some \<lparr>report_SnapshotID = S ''s1'', TotalWindows = 3, RestoredWindows = 0,
           FailedWindows = [], MissingApps = [], Errors = [], Success = True,
           report_DryRun = True, Error = [],
           Message = S ''Dry run completed - no changes made''\<rparr>, None),
    startWorld)"
  by (subst Restore_loaded [OF exampleRepo_s1])
     (simp add: Restore_after_validation_def)

theorem Restore_dry_run_witness:
  "Restore exampleRepo flakyPlatform (S ''s1'')
     \<lparr>ValidateBeforeRestore = False, SkipMissingApps = False, DryRun = True\<rparr> startWorld =
   ((Some \<lparr>report_SnapshotID = S ''s1'', TotalWindows = 3, RestoredWindows = 0,
           FailedWindows = [], MissingApps = [], Errors = [], Success = True,
           report_DryRun = True, Error = [],
           Message = S ''Dry run completed - no changes made''\<rparr>, None),
    startWorld) \<and>
   restoreCalls (calls startWorld) = []"
proof -
  let ?opts = "\<lparr>ValidateBeforeRestore = False, SkipMissingApps = False, DryRun = True\<rparr>"
  have "DryRun ?opts" by simp
  from Restore_dry_run [OF this, of exampleRepo flakyPlatform "S ''s1''" startWorld]
  have "restoreCalls (calls (snd (Restore exampleRepo flakyPlatform (S ''s1'') ?opts startWorld)))
      = restoreCalls (calls startWorld)"
    by blast
  then show ?thesis
    using Restore_flaky_dry_run by (simp add: startWorld_def restoreCalls_def)
qed

subsection \<open>Enumeration failure during validation\<close>

lemma Restore_after_validation_opts:
  "DryRun opts' = DryRun opts \<Longrightarrow>
   Restore_after_validation platform opts' s report world =
   Restore_after_validation platform opts s report world"
  by (simp add: Restore_after_validation_def)

lemma Restore_after_validation_returns:
  assumes "Windows s = ws"
  shows "\<exists>report' world'.
     Restore_after_validation platform opts s report world = ((Some report', None), world') \<and>
     MissingApps report' = MissingApps report \<and> Error report' = Error report \<and>
     (if DryRun opts then world' = world
      else calls world' = calls world @ map CallRestoreWindow ws)"
proof (cases "DryRun opts")
  case True
  then show ?thesis by (simp add: Restore_after_validation_def)
next
  case False
  from Restore_after_validation_run [OF False assms, of platform report world]
  show ?thesis using False unfolding Let_def by auto
qed

text \<open>
  C10. When the platform fails to enumerate the current windows, \<open>validateApps\<close> returns
  the empty list. A \<open>Restore\<close> with validation requested then goes on exactly as a
  \<open>Restore\<close> without validation goes on after the call of \<open>GetWindows\<close>: it returns a report
  with no missing application and no error, and unless it is a dry run it calls
  \<open>RestoreWindow\<close> for every stored window.
\<close>

theorem validation_passes_when_enumeration_fails:
  assumes fails: "GetWindows platform (platformState world) = ((current, Some err), p')"
  shows "validateApps platform ws world =
       ([], \<lparr>platformState = p', calls = calls world @ [CallGetWindows]\<rparr>) \<and>
     (\<forall>s. GetSnapshotByID repo snapshotID = (Some s, None) \<and>
          repo_GetWindows repo snapshotID = (ws, None) \<and> ValidateBeforeRestore opts \<longrightarrow>
        Restore repo platform snapshotID opts world =
          Restore repo platform snapshotID (opts\<lparr>ValidateBeforeRestore := False\<rparr>)
            \<lparr>platformState = p', calls = calls world @ [CallGetWindows]\<rparr> \<and>
        (\<exists>report world'.
           Restore repo platform snapshotID opts world = ((Some report, None), world') \<and>
           MissingApps report = [] \<and> Error report = [] \<and>
           (if DryRun opts then calls world' = calls world @ [CallGetWindows]
            else calls world' = calls world @ CallGetWindows # map CallRestoreWindow ws)))"
proof (intro conjI allI impI)
  show v: "validateApps platform ws world =
       ([], \<lparr>platformState = p', calls = calls world @ [CallGetWindows]\<rparr>)"
    using fails by (rule validateApps_enumeration_fails)
  fix s
  assume a: "GetSnapshotByID repo snapshotID = (Some s, None) \<and>
          repo_GetWindows repo snapshotID = (ws, None) \<and> ValidateBeforeRestore opts"
  then have snapshot: "GetSnapshotByID repo snapshotID = (Some s, None)"
    and windows: "repo_GetWindows repo snapshotID = (ws, None)"
    and validate: "ValidateBeforeRestore opts"
    by simp_all
  define world1 where "world1 = \<lparr>platformState = p', calls = calls world @ [CallGetWindows]\<rparr>"
  define report0 where "report0 =
     \<lparr>report_SnapshotID = snapshotID, TotalWindows = int (length ws),
      RestoredWindows = 0, FailedWindows = [], MissingApps = [], Errors = [],
      Success = False, report_DryRun = False, Error = [], Message = []\<rparr>"
  have with_validation: "Restore repo platform snapshotID opts world =
      Restore_after_validation platform opts (s\<lparr>Windows := ws\<rparr>) report0 world1"
    using validate
    by (simp add: Restore_loaded [OF snapshot windows] v world1_def report0_def)
  have without: "Restore repo platform snapshotID (opts\<lparr>ValidateBeforeRestore := False\<rparr>) world1 =
      Restore_after_validation platform opts (s\<lparr>Windows := ws\<rparr>) report0 world1"
    by (simp add: Restore_loaded [OF snapshot windows] report0_def
        Restore_after_validation_opts [of "opts\<lparr>ValidateBeforeRestore := False\<rparr>" opts])
  show "Restore repo platform snapshotID opts world =
          Restore repo platform snapshotID (opts\<lparr>ValidateBeforeRestore := False\<rparr>)
            \<lparr>platformState = p', calls = calls world @ [CallGetWindows]\<rparr>"
    using with_validation without by (simp add: world1_def)
  from Restore_after_validation_returns [of "s\<lparr>Windows := ws\<rparr>" ws platform opts report0 world1]
  obtain report' world' where
    run: "Restore_after_validation platform opts (s\<lparr>Windows := ws\<rparr>) report0 world1 =
        ((Some report', None), world')"
    and fields: "MissingApps report' = MissingApps report0" "Error report' = Error report0"
    and trace: "if DryRun opts then world' = world1
                else calls world' = calls world1 @ map CallRestoreWindow ws"
    by auto
  have "if DryRun opts then calls world' = calls world @ [CallGetWindows]
        else calls world' = calls world @ CallGetWindows # map CallRestoreWindow ws"
    using trace by (simp add: world1_def split: if_splits)
  moreover have "MissingApps report' = []" "Error report' = []"
    using fields by (simp_all add: report0_def)
  ultimately show "\<exists>report world'.
           Restore repo platform snapshotID opts world = ((Some report, None), world') \<and>
           MissingApps report = [] \<and> Error report = [] \<and>
           (if DryRun opts then calls world' = calls world @ [CallGetWindows]
            else calls world' = calls world @ CallGetWindows # map CallRestoreWindow ws)"
    unfolding with_validation run by blast
qed

lemma blind_fails:
  "GetWindows blindPlatform (platformState startWorld) =
     (([], Some (S ''EnumWindows failed'')), 0)"
  by (simp add: blindPlatform_def startWorld_def)

lemma blind_validateApps:
  "validateApps blindPlatform ws startWorld =
     ([], \<lparr>platformState = 0, calls = [CallGetWindows]\<rparr>)"
  using validateApps_enumeration_fails [OF blind_fails, of ws] by (simp add: startWorld_def)

lemma blind_RestoreWindow: "RestoreWindow blindPlatform w p = (None, Suc p)"
  by (simp add: blindPlatform_def)

lemma Restore_blind:
  "Restore exampleRepo blindPlatform (S ''s1'')
     \<lparr>ValidateBeforeRestore = True, SkipMissingApps = False, DryRun = False\<rparr> startWorld =
   ((Some \<lparr>report_SnapshotID = S ''s1'', TotalWindows = 3, RestoredWindows = 3,
           FailedWindows = [], MissingApps = [], Errors = [], Success = True,
           report_DryRun = False, Error = [],
           Message = S ''All windows restored successfully''\<rparr>, None),
    \<lparr>platformState = 3,
     calls = [CallGetWindows, CallRestoreWindow editorA, CallRestoreWindow terminalZ,
              CallRestoreWindow editorB]\<rparr>)"
  by (subst Restore_loaded [OF exampleRepo_s1])
     (simp add: blind_validateApps Restore_after_validation_def platform_RestoreWindow_def
        blind_RestoreWindow Let_def)

theorem validation_passes_when_enumeration_fails_witness:
  "validateApps blindPlatform [editorA, terminalZ, editorB] startWorld =
     ([], \<lparr>platformState = 0, calls = [CallGetWindows]\<rparr>) \<and>
   Restore exampleRepo blindPlatform (S ''s1'')
     \<lparr>ValidateBeforeRestore = True, SkipMissingApps = False, DryRun = False\<rparr> startWorld =
   ((Some \<lparr>report_SnapshotID = S ''s1'', TotalWindows = 3, RestoredWindows = 3,
           FailedWindows = [], MissingApps = [], Errors = [], Success = True,
           report_DryRun = False, Error = [],
           Message = S ''All windows restored successfully''\<rparr>, None),
    \<lparr>platformState = 3,
     calls = [CallGetWindows, CallRestoreWindow editorA, CallRestoreWindow terminalZ,
              CallRestoreWindow editorB]\<rparr>)"
proof -
  from validation_passes_when_enumeration_fails [OF blind_fails]
  have "validateApps blindPlatform [editorA, terminalZ, editorB] startWorld =
     ([], \<lparr>platformState = 0, calls = calls startWorld @ [CallGetWindows]\<rparr>)"
    by blast
  then show ?thesis
    using Restore_blind by (simp add: startWorld_def)
qed

section \<open>Properties of the diff\<close>

lemma diffAdded_fields:
  "AddedWindows (diffAdded titles1 diff ts) =
     AddedWindows diff @ filter (\<lambda>t. t \<notin> set titles1) ts"
  "RemovedWindows (diffAdded titles1 diff ts) = RemovedWindows diff"
  "CommonWindows (diffAdded titles1 diff ts) =
     CommonWindows diff + int (length (filter (\<lambda>t. t \<in> set titles1) ts))"
  by (induction ts arbitrary: diff) simp_all

lemma diffRemoved_fields:
  "RemovedWindows (diffRemoved titles2 diff ts) =
     RemovedWindows diff @ filter (\<lambda>t. t \<notin> set titles2) ts"
  "AddedWindows (diffRemoved titles2 diff ts) = AddedWindows diff"
  "CommonWindows (diffRemoved titles2 diff ts) = CommonWindows diff"
  by (induction ts arbitrary: diff) simp_all

lemma set_titleKeys: "set (titleKeys ws) = WindowTitle ` set ws"
  by (simp add: titleKeys_def)

lemma Diff_Some:
  assumes "Diff repo rangeOrder id1 id2 = (Some d, None)"
  shows "(\<exists>s1 s2. GetSnapshotByID repo id1 = (Some s1, None) \<and>
            GetSnapshotByID repo id2 = (Some s2, None)) \<and>
     AddedWindows d =
       filter (\<lambda>t. t \<notin> set (titleKeys (fst (repo_GetWindows repo id1))))
         (rangeOrder (titleKeys (fst (repo_GetWindows repo id2)))) \<and>
     RemovedWindows d =
       filter (\<lambda>t. t \<notin> set (titleKeys (fst (repo_GetWindows repo id2))))
         (rangeOrder (titleKeys (fst (repo_GetWindows repo id1))))"
  using assms
  by (auto simp: Diff_def Let_def diffAdded_fields diffRemoved_fields
      split: prod.splits option.splits)

lemma Diff_returns:
  assumes "GetSnapshotByID repo id1 = (Some s1, None)"
    and "GetSnapshotByID repo id2 = (Some s2, None)"
  shows "\<exists>d. Diff repo rangeOrder id1 id2 = (Some d, None)"
  using assms by (simp add: Diff_def Let_def)

text \<open>
  C9. Whatever the order in which the keys of the two maps are visited (each key being
  visited), when the diff of A and B succeeds, the diff of B and A succeeds too; the
  titles added from A to B are the titles of B that are not titles of A, and they are the
  titles removed from B to A; the titles removed from A to B are the titles of A that are
  not titles of B, and they are the titles added from B to A.
\<close>

theorem Diff_added_removed_symmetric:
  assumes visits: "\<forall>ks. set (order ks) = set ks" and visits': "\<forall>ks. set (order' ks) = set ks"
    and diff: "Diff repo order idA idB = (Some d, None)"
  shows "\<exists>d'. Diff repo order' idB idA = (Some d', None) \<and>
     set (AddedWindows d) = set (RemovedWindows d') \<and>
     set (RemovedWindows d) = set (AddedWindows d') \<and>
     set (AddedWindows d) =
       WindowTitle ` set (fst (repo_GetWindows repo idB))
       - WindowTitle ` set (fst (repo_GetWindows repo idA)) \<and>
     set (RemovedWindows d) =
       WindowTitle ` set (fst (repo_GetWindows repo idA))
       - WindowTitle ` set (fst (repo_GetWindows repo idB))"
proof -
  from Diff_Some [OF diff] obtain sA sB where
    snapshots: "GetSnapshotByID repo idA = (Some sA, None)"
      "GetSnapshotByID repo idB = (Some sB, None)"
    and added: "set (AddedWindows d) =
       WindowTitle ` set (fst (repo_GetWindows repo idB))
       - WindowTitle ` set (fst (repo_GetWindows repo idA))"
    and removed: "set (RemovedWindows d) =
       WindowTitle ` set (fst (repo_GetWindows repo idA))
       - WindowTitle ` set (fst (repo_GetWindows repo idB))"
    using visits by (auto simp: set_titleKeys)
  from Diff_returns [OF snapshots(2) snapshots(1)] obtain d' where
    diff': "Diff repo order' idB idA = (Some d', None)"
    by blast
  from Diff_Some [OF diff'] have
    "set (AddedWindows d') =
       WindowTitle ` set (fst (repo_GetWindows repo idA))
       - WindowTitle ` set (fst (repo_GetWindows repo idB))"
    "set (RemovedWindows d') =
       WindowTitle ` set (fst (repo_GetWindows repo idB))
       - WindowTitle ` set (fst (repo_GetWindows repo idA))"
    using visits' by (auto simp: set_titleKeys)
  then show ?thesis
    using diff' added removed by simp
qed

lemma exampleRepo_s2:
  "GetSnapshotByID exampleRepo (S ''s2'') =
     (Some (exampleSnapshot\<lparr>snapshot_ID := S ''s2''\<rparr>), None)"
  "repo_GetWindows exampleRepo (S ''s2'') = ([editorB, wideT], None)"
  by (simp_all add: exampleRepo_def)

lemma Diff_example:
  "Diff exampleRepo (\<lambda>ks. ks) (S ''s1'') (S ''s2'') =
     (Some \<lparr>SourceID = S ''s1'', TargetID = S ''s2'', GitChanged = False,
            AddedWindows = [S ''T''], RemovedWindows = [S ''a.go'', S ''zz''],
            CommonWindows = 1\<rparr>, None)"
  unfolding Diff_def exampleRepo_s1 exampleRepo_s2
  by (simp add: titleKeys_def example_titles exampleSnapshot_def)

lemma Diff_example_reverse:
  "Diff exampleRepo rev (S ''s2'') (S ''s1'') =
     (Some \<lparr>SourceID = S ''s2'', TargetID = S ''s1'', GitChanged = False,
            AddedWindows = [S ''zz'', S ''a.go''], RemovedWindows = [S ''T''],
            CommonWindows = 1\<rparr>, None)"
  unfolding Diff_def exampleRepo_s1 exampleRepo_s2
  by (simp add: titleKeys_def example_titles exampleSnapshot_def)

theorem Diff_added_removed_symmetric_witness:
  "Diff exampleRepo (\<lambda>ks. ks) (S ''s1'') (S ''s2'') =
     (Some \<lparr>SourceID = S ''s1'', TargetID = S ''s2'', GitChanged = False,
            AddedWindows = [S ''T''], RemovedWindows = [S ''a.go'', S ''zz''],
            CommonWindows = 1\<rparr>, None) \<and>
   Diff exampleRepo rev (S ''s2'') (S ''s1'') =
     (Some \<lparr>SourceID = S ''s2'', TargetID = S ''s1'', GitChanged = False,
            AddedWindows = [S ''zz'', S ''a.go''], RemovedWindows = [S ''T''],
            CommonWindows = 1\<rparr>, None) \<and>
   set [S ''a.go'', S ''zz''] = set [S ''zz'', S ''a.go'']"
proof -
  have "\<forall>ks::gostring list. set ((\<lambda>ks. ks) ks) = set ks" and "\<forall>ks::gostring list. set (rev ks) = set ks"
    by simp_all
  from Diff_added_removed_symmetric [OF this Diff_example]
  have "set [S ''a.go'', S ''zz''] = set [S ''zz'', S ''a.go'']"
    unfolding Diff_example_reverse by simp
  then show ?thesis
    using Diff_example Diff_example_reverse by simp
qed

end
